theory Spec2Isabelle
  imports Main "HOL-Library.Word" "HOL-Library.Sublist"
begin

section \<open>JavaScript strings\<close>

text \<open>
  A JavaScript string is a sequence of UTF-16 code units. The functions of this section
  are the built-ins of \<^verbatim>\<open>String.prototype\<close> and \<^verbatim>\<open>Array.prototype\<close> that
  \<^verbatim>\<open>src/lib/response.js\<close> calls, written after ECMAScript: \<^verbatim>\<open>split\<close>,
  \<^verbatim>\<open>join\<close>, \<^verbatim>\<open>trim\<close>, \<^verbatim>\<open>trimStart\<close>, \<^verbatim>\<open>startsWith\<close>.
\<close>

type_synonym jschar = "16 word"
type_synonym jsstring = "jschar list"

text \<open>An ASCII literal of the source, as code units.\<close>

definition js :: "string \<Rightarrow> jsstring" where
  "js s = map of_char s"

text \<open>The separator of \<^verbatim>\<open>split('\n')\<close> and \<^verbatim>\<open>join('\n')\<close>.\<close>

definition newline :: jschar where
  "newline = 0x0A"

text \<open>ECMAScript's LineTerminator: LF, CR, LS, PS. The regular expression's dot excludes these.\<close>

definition isLineTerminator :: "jschar \<Rightarrow> bool" where
  "isLineTerminator c = (c = 0x0A \<or> c = 0x0D \<or> c = 0x2028 \<or> c = 0x2029)"

text \<open>
  What \<^verbatim>\<open>trim\<close>, \<^verbatim>\<open>trimStart\<close> and the class \<^verbatim>\<open>\s\<close> strip or match:
  ECMAScript's WhiteSpace (TAB, VT, FF, ZWNBSP and the Unicode space separators) and
  LineTerminator.
\<close>

definition isWhiteSpace :: "jschar \<Rightarrow> bool" where
  "isWhiteSpace c =
     (c = 0x09 \<or> c = 0x0B \<or> c = 0x0C \<or> c = 0x20 \<or> c = 0xA0 \<or> c = 0x1680 \<or>
      (0x2000 \<le> c \<and> c \<le> 0x200A) \<or> c = 0x202F \<or> c = 0x205F \<or> c = 0x3000 \<or>
      c = 0xFEFF \<or> isLineTerminator c)"

text \<open>The class \<^verbatim>\<open>\w\<close>: ASCII letters, digits and the underscore.\<close>

definition isWordChar :: "jschar \<Rightarrow> bool" where
  "isWordChar c =
     ((0x41 \<le> c \<and> c \<le> 0x5A) \<or> (0x61 \<le> c \<and> c \<le> 0x7A) \<or> (0x30 \<le> c \<and> c \<le> 0x39) \<or> c = 0x5F)"

definition trimStart :: "jsstring \<Rightarrow> jsstring" where
  "trimStart s = dropWhile isWhiteSpace s"

definition trimEnd :: "jsstring \<Rightarrow> jsstring" where
  "trimEnd s = rev (dropWhile isWhiteSpace (rev s))"

text \<open>\<^verbatim>\<open>String.prototype.trim\<close>.\<close>

definition str_trim :: "jsstring \<Rightarrow> jsstring" where
  "str_trim s = trimEnd (trimStart s)"

definition startsWith :: "jsstring \<Rightarrow> jsstring \<Rightarrow> bool" where
  "startsWith s p = (take (length p) s = p)"

text \<open>
  \<^verbatim>\<open>s.split('\n')\<close>: the pieces between the separators; the empty string gives one
  empty piece.
\<close>

fun split :: "jsstring \<Rightarrow> jsstring list" where
  "split [] = [[]]"
| "split (c # cs) =
     (if c = newline then [] # split cs
      else (case split cs of l # ls \<Rightarrow> (c # l) # ls | [] \<Rightarrow> [[c]]))"

text \<open>\<^verbatim>\<open>a.join('\n')\<close>: the empty array gives the empty string.\<close>

fun join :: "jsstring list \<Rightarrow> jsstring" where
  "join [] = []"
| "join [l] = l"
| "join (l # m # ls) = l @ newline # join (m # ls)"

section \<open>The accessibility-tree compactor\<close>

text \<open>
  \<^verbatim>\<open>filterEmptyGenericElementsIntelligent\<close> of \<^verbatim>\<open>src/lib/response.js\<close>. An index
  outside the array reads \<^verbatim>\<open>undefined\<close>, and \<^verbatim>\<open>undefined.trim()\<close> throws a
  TypeError: the model returns it as a value.
\<close>

datatype error = TypeError | DriverError jsstring

text \<open>The literal \<^verbatim>\<open>'- generic [ref='\<close>.\<close>

definition genericPrefix :: jsstring where
  "genericPrefix = js ''- generic [ref=''"

text \<open>
  The tail \<^verbatim>\<open>\s*(.+)$\<close> of the regular expression, on the text after the colon:
  the star is greedy and gives back one code unit at a time, from \<open>k\<close> code units of
  white space down to none, until the rest is a non-empty run without line terminator
  that reaches the end. The result is the captured group.
\<close>

fun matchRest :: "nat \<Rightarrow> jsstring \<Rightarrow> jsstring option" where
  "matchRest 0 r =
     (if r \<noteq> [] \<and> list_all (\<lambda>c. \<not> isLineTerminator c) r then Some r else None)"
| "matchRest (Suc k) r =
     (let d = drop (Suc k) r in
      if d \<noteq> [] \<and> list_all (\<lambda>c. \<not> isLineTerminator c) d then Some d
      else matchRest k r)"

text \<open>
  \<^verbatim>\<open>trimmedLine.match(/^- generic \[ref=\w+\]:\s*(.+)$/)\<close>: \<open>None\<close> is the
  \<^verbatim>\<open>null\<close> of no match, \<open>Some g\<close> a match whose group 1 is \<open>g\<close>. After the
  literal prefix the word characters are one maximal non-empty run (the next literal,
  the closing bracket, is no word character), followed by the bracket and the colon.
\<close>

definition matchGeneric :: "jsstring \<Rightarrow> jsstring option" where
  "matchGeneric s =
     (if \<not> startsWith s genericPrefix then None
      else
        let r1 = drop (length genericPrefix) s;
            w = takeWhile isWordChar r1;
            r2 = dropWhile isWordChar r1
        in if w = [] \<or> \<not> startsWith r2 (js '']:'') then None
           else matchRest (length (takeWhile isWhiteSpace (drop 2 r2))) (drop 2 r2))"

text \<open>\<^verbatim>\<open>line.length - line.trimStart().length\<close>.\<close>

definition indentOf :: "jsstring \<Rightarrow> nat" where
  "indentOf line = length line - length (trimStart line)"

text \<open>
  \<^verbatim>\<open>hasUsefulContent(lineIndex)\<close> and its \<^verbatim>\<open>for\<close> loop over the following lines,
  \<open>i\<close> the loop variable.
\<close>

function hasUsefulContent :: "jsstring list \<Rightarrow> nat \<Rightarrow> error + bool"
  and hasUsefulContent_loop :: "jsstring list \<Rightarrow> nat \<Rightarrow> nat \<Rightarrow> error + bool"
where
  "hasUsefulContent lines lineIndex =
     (if lineIndex \<ge> length lines then Inl TypeError
      else
        let line = lines ! lineIndex;
            trimmedLine = str_trim line
        in if \<not> startsWith trimmedLine genericPrefix then Inr (length trimmedLine > 0)
           else if (case matchGeneric trimmedLine of
                      None \<Rightarrow> False
                    | Some g \<Rightarrow> length (str_trim g) > 0) then Inr True
           else hasUsefulContent_loop lines (indentOf line) (lineIndex + 1))"
| "hasUsefulContent_loop lines currentIndent i =
     (if i < length lines then
        let nextLine = lines ! i;
            nextIndent = indentOf nextLine
        in if nextIndent \<le> currentIndent \<and> str_trim nextLine \<noteq> [] then Inr False
           else if nextIndent > currentIndent then
             (case hasUsefulContent lines i of
                Inl e \<Rightarrow> Inl e
              | Inr True \<Rightarrow> Inr True
              | Inr False \<Rightarrow> hasUsefulContent_loop lines currentIndent (i + 1))
           else hasUsefulContent_loop lines currentIndent (i + 1)
      else Inr False)"
  by pat_completeness auto
termination
  by (relation "measure (\<lambda>x. case x of
          Inl (lines, lineIndex) \<Rightarrow> 2 * (length lines - lineIndex)
        | Inr (lines, currentIndent, i) \<Rightarrow> 2 * (length lines - i) + 1)") auto

text \<open>The filter loop: \<open>i\<close> the loop variable, \<open>result\<close> the array built so far.\<close>

function filterLoop :: "jsstring list \<Rightarrow> nat \<Rightarrow> jsstring list \<Rightarrow> error + jsstring list" where
  "filterLoop lines i result =
     (if i < length lines then
        (if str_trim (lines ! i) = [] then filterLoop lines (i + 1) (result @ [lines ! i])
         else (case hasUsefulContent lines i of
                 Inl e \<Rightarrow> Inl e
               | Inr True \<Rightarrow> filterLoop lines (i + 1) (result @ [lines ! i])
               | Inr False \<Rightarrow> filterLoop lines (i + 1) result))
      else Inr result)"
  by pat_completeness auto
termination
  by (relation "measure (\<lambda>(lines, i, result). length lines - i)") auto

definition filterEmptyGenericElementsIntelligent :: "jsstring \<Rightarrow> error + jsstring" where
  "filterEmptyGenericElementsIntelligent ariaSnapshot =
     (case filterLoop (split ariaSnapshot) 0 [] of
        Inl e \<Rightarrow> Inl e
      | Inr result \<Rightarrow> Inr (join result))"

text \<open>
  The same three loops on the suffix of the lines that starts at the index, for the
  proofs. \<open>scansDescendants\<close> is the condition under which
  \<^verbatim>\<open>hasUsefulContent\<close> reaches its loop over the following lines: the trimmed
  line starts with the generic prefix and the regular expression finds no text in it.
  It is the code's test, not the specification's bare structural node: a generic line
  with a further attribute after its reference takes this branch too, with or without
  text after its colon.
\<close>

definition isBlank :: "jsstring \<Rightarrow> bool" where
  "isBlank line = (str_trim line = [])"

definition scansDescendants :: "jsstring \<Rightarrow> bool" where
  "scansDescendants line =
     (startsWith (str_trim line) genericPrefix \<and>
      \<not> (case matchGeneric (str_trim line) of
             None \<Rightarrow> False
           | Some g \<Rightarrow> length (str_trim g) > 0))"

function usefulSuffix :: "jsstring list \<Rightarrow> bool"
  and scanSuffix :: "nat \<Rightarrow> jsstring list \<Rightarrow> bool"
where
  "usefulSuffix [] = False"
| "usefulSuffix (line # rest) =
     (if scansDescendants line then scanSuffix (indentOf line) rest else \<not> isBlank line)"
| "scanSuffix currentIndent [] = False"
| "scanSuffix currentIndent (nextLine # rest) =
     (if indentOf nextLine \<le> currentIndent \<and> \<not> isBlank nextLine then False
      else if currentIndent < indentOf nextLine \<and> usefulSuffix (nextLine # rest) then True
      else scanSuffix currentIndent rest)"
  by pat_completeness auto
termination
  by (relation "measure (\<lambda>x. case x of
          Inl ls \<Rightarrow> 2 * length ls
        | Inr (currentIndent, ls) \<Rightarrow> 2 * length ls + 1)") auto

fun keepLines :: "jsstring list \<Rightarrow> jsstring list" where
  "keepLines [] = []"
| "keepLines (line # rest) =
     (if isBlank line \<or> usefulSuffix (line # rest) then line # keepLines rest
      else keepLines rest)"

text \<open>
  The classification of the specification (section 4.1, step 2), in its words: a bare
  structural node is a generic placeholder with an attached stable identifier and no
  trailing text after its label separator, the colon; any other non-blank line is
  immediately useful.
\<close>

definition labelSeparator :: jschar where
  "labelSeparator = 0x3A"

definition trailingText :: "jsstring \<Rightarrow> jsstring" where
  "trailingText t = str_trim (drop 1 (dropWhile (\<lambda>c. c \<noteq> labelSeparator) t))"

definition bareStructuralNode :: "jsstring \<Rightarrow> bool" where
  "bareStructuralNode line =
     (startsWith (str_trim line) genericPrefix \<and> trailingText (str_trim line) = [])"

definition immediatelyUseful :: "jsstring \<Rightarrow> bool" where
  "immediatelyUseful line = (\<not> isBlank line \<and> \<not> bareStructuralNode line)"

section \<open>The response accumulator\<close>

text \<open>
  JavaScript values, as far as the payload needs them. An object is the list of its
  properties in insertion order.
\<close>

datatype jsval =
    JUndefined
  | JNull
  | JBool bool
  | JNum int
  | JStr jsstring
  | JArr "jsval list"
  | JObj "(string \<times> jsval) list"

text \<open>Reading a property, and the assignment \<^verbatim>\<open>obj.key = v\<close>.\<close>

fun getProp :: "(string \<times> jsval) list \<Rightarrow> string \<Rightarrow> jsval" where
  "getProp [] key = JUndefined"
| "getProp ((k, v) # ps) key = (if k = key then v else getProp ps key)"

fun setProp :: "(string \<times> jsval) list \<Rightarrow> string \<Rightarrow> jsval \<Rightarrow> (string \<times> jsval) list" where
  "setProp [] key v = [(key, v)]"
| "setProp ((k, w) # ps) key v = (if k = key then (k, v) # ps else (k, w) # setProp ps key v)"

text \<open>
  Modelled from the spec: the values of the driver layer, whose files (the tab and the
  context) are not among the sources, with the fields that sections 3 and 6 of the
  specification list and that \<^verbatim>\<open>src/lib/response.js\<close> reads: an attached
  image, a download entry (with what \<^verbatim>\<open>entry.download.suggestedFilename()\<close>
  returns), a captured tab snapshot (each console message as the text its
  \<^verbatim>\<open>toString()\<close> returns), a tab handle (with what \<^verbatim>\<open>lastTitle()\<close>,
  \<^verbatim>\<open>page.url()\<close> and \<^verbatim>\<open>isCurrentTab()\<close> return), and the browsing context
  (with what \<^verbatim>\<open>tabs()\<close>, \<^verbatim>\<open>currentTab()\<close> and
  \<^verbatim>\<open>config.imageResponses\<close> return).
\<close>

record image =
  data :: "8 word list"
  contentType :: jsstring

record downloadEntry =
  suggestedFilename :: jsstring
  outputFile :: jsstring
  finished :: bool

record tabSnapshot =
  url :: jsstring
  title :: jsstring
  ariaSnapshot :: jsstring
  consoleMessages :: "jsstring list"
  downloads :: "downloadEntry list"
  modalStates :: "jsval list"

record tab =
  lastTitle :: jsstring
  pageUrl :: jsstring
  isCurrentTab :: bool

record browserContext =
  tabs :: "tab list"
  currentTab :: "tab option"
  imageResponses :: jsstring

text \<open>
  The fields of class \<^verbatim>\<open>Response\<close>; \<open>f_result\<close> is \<^verbatim>\<open>_result\<close> and so
  on. \<^verbatim>\<open>_isError\<close> and \<^verbatim>\<open>_tabSnapshot\<close> start \<^verbatim>\<open>undefined\<close>, which
  is \<open>None\<close>. The context is shared with the driver layer and is an argument of the
  methods that read it.
\<close>

record Response =
  f_result :: "jsstring list"
  f_code :: "jsstring list"
  f_images :: "image list"
  f_includeSnapshot :: bool
  f_includeTabs :: bool
  f_tabSnapshot :: "tabSnapshot option"
  toolName :: jsstring
  toolArgs :: jsval
  f_isError :: "bool option"

text \<open>The constructor, with the field initialisers of the class.\<close>

definition newResponse :: "jsstring \<Rightarrow> jsval \<Rightarrow> Response" where
  "newResponse name args =
     \<lparr> f_result = [], f_code = [], f_images = [], f_includeSnapshot = False,
       f_includeTabs = False, f_tabSnapshot = None, toolName = name, toolArgs = args,
       f_isError = None \<rparr>"

definition addResult :: "jsstring \<Rightarrow> Response \<Rightarrow> Response" where
  "addResult r this = this\<lparr>f_result := f_result this @ [r]\<rparr>"

definition addError :: "jsstring \<Rightarrow> Response \<Rightarrow> Response" where
  "addError e this = this\<lparr>f_result := f_result this @ [e], f_isError := Some True\<rparr>"

definition isError :: "Response \<Rightarrow> bool option" where
  "isError this = f_isError this"

definition result :: "Response \<Rightarrow> jsstring" where
  "result this = join (f_result this)"

definition addCode :: "jsstring \<Rightarrow> Response \<Rightarrow> Response" where
  "addCode c this = this\<lparr>f_code := f_code this @ [c]\<rparr>"

definition code :: "Response \<Rightarrow> jsstring" where
  "code this = join (f_code this)"

definition addImage :: "image \<Rightarrow> Response \<Rightarrow> Response" where
  "addImage img this = this\<lparr>f_images := f_images this @ [img]\<rparr>"

definition images :: "Response \<Rightarrow> image list" where
  "images this = f_images this"

definition setIncludeSnapshot :: "Response \<Rightarrow> Response" where
  "setIncludeSnapshot this = this\<lparr>f_includeSnapshot := True\<rparr>"

definition setIncludeTabs :: "Response \<Rightarrow> Response" where
  "setIncludeTabs this = this\<lparr>f_includeTabs := True\<rparr>"

text \<open>A tool's calls on its accumulator, and a run of them in order.\<close>

datatype call =
    AddResult jsstring
  | AddError jsstring
  | AddCode jsstring
  | AddImage image
  | SetIncludeSnapshot
  | SetIncludeTabs

fun applyCall :: "Response \<Rightarrow> call \<Rightarrow> Response" where
  "applyCall this (AddResult r) = addResult r this"
| "applyCall this (AddError e) = addError e this"
| "applyCall this (AddCode c) = addCode c this"
| "applyCall this (AddImage img) = addImage img this"
| "applyCall this SetIncludeSnapshot = setIncludeSnapshot this"
| "applyCall this SetIncludeTabs = setIncludeTabs this"

definition applyCalls :: "Response \<Rightarrow> call list \<Rightarrow> Response" where
  "applyCalls this cs = foldl applyCall this cs"

subsection \<open>The finish protocol\<close>

text \<open>
  Modelled from the spec: \<^verbatim>\<open>currentTabOrDie\<close> of the context (its file is not among
  the sources) returns the current tab and fails loudly if none exists.
\<close>

definition currentTabOrDie :: "browserContext \<Rightarrow> error + tab" where
  "currentTabOrDie ctx =
     (case currentTab ctx of
        None \<Rightarrow> Inl (DriverError (js ''No current tab''))
      | Some t \<Rightarrow> Inr t)"

text \<open>
  The loop \<^verbatim>\<open>for (const tab of this._context.tabs()) await tab.updateTitle()\<close>.
  \<open>updateTitle\<close> is the driver's primitive: it returns the tab with its cached title
  refreshed, or throws. The result is the exception, if any, and the tabs as the loop
  leaves them.
\<close>

fun updateTitles :: "(tab \<Rightarrow> error + tab) \<Rightarrow> tab list \<Rightarrow> error option \<times> tab list" where
  "updateTitles updateTitle [] = (None, [])"
| "updateTitles updateTitle (t # ts) =
     (case updateTitle t of
        Inl e \<Rightarrow> (Some e, t # ts)
      | Inr t' \<Rightarrow> (case updateTitles updateTitle ts of (e, ts') \<Rightarrow> (e, t' # ts')))"

text \<open>
  \<^verbatim>\<open>finish()\<close>. \<open>captureSnapshot\<close> is the driver's primitive, which returns a
  snapshot or throws. The result is the exception that left \<^verbatim>\<open>finish\<close>, if any,
  the tabs after the title refresh, and the accumulator as \<^verbatim>\<open>finish\<close> leaves it.
\<close>

definition finish ::
  "(tab \<Rightarrow> error + tabSnapshot) \<Rightarrow> (tab \<Rightarrow> error + tab) \<Rightarrow> browserContext \<Rightarrow> Response
     \<Rightarrow> error option \<times> tab list \<times> Response" where
  "finish captureSnapshot updateTitle ctx this =
     (if f_includeSnapshot this \<and> currentTab ctx \<noteq> None then
        (case currentTabOrDie ctx of
           Inl e \<Rightarrow> (Some e, tabs ctx, this)
         | Inr t \<Rightarrow>
             (case captureSnapshot t of
                Inl e \<Rightarrow> (Some e, tabs ctx, this)
              | Inr s \<Rightarrow>
                  (case updateTitles updateTitle (tabs ctx) of
                     (e, ts) \<Rightarrow> (e, ts, this\<lparr>f_tabSnapshot := Some s\<rparr>))))
      else
        (case updateTitles updateTitle (tabs ctx) of (e, ts) \<Rightarrow> (e, ts, this)))"

definition tabSnapshot :: "Response \<Rightarrow> tabSnapshot option" where
  "tabSnapshot this = f_tabSnapshot this"

subsection \<open>Serialization\<close>

text \<open>The module's \<^verbatim>\<open>trim(text, maxLength)\<close>, for a length that is not negative.\<close>

definition trim :: "jsstring \<Rightarrow> nat \<Rightarrow> jsstring" where
  "trim text' maxLength =
     (if length text' \<le> maxLength then text' else take maxLength text' @ js ''...'')"

text \<open>\<^verbatim>\<open>renderTabSnapshotJson\<close>; it throws what the compactor throws.\<close>

definition renderTabSnapshotJson :: "tabSnapshot \<Rightarrow> error + jsval" where
  "renderTabSnapshotJson s =
     (case filterEmptyGenericElementsIntelligent (ariaSnapshot s) of
        Inl e \<Rightarrow> Inl e
      | Inr filtered \<Rightarrow>
          let snapshotData =
                [(''url'', JStr (url s)), (''title'', JStr (title s)),
                 (''ariaSnapshot'', JStr filtered)];
              snapshotData1 =
                (if consoleMessages s \<noteq> [] then
                   setProp snapshotData ''consoleMessages''
                     (JArr (map (\<lambda>message. JStr (trim message 100)) (consoleMessages s)))
                 else snapshotData);
              snapshotData2 =
                (if downloads s \<noteq> [] then
                   setProp snapshotData1 ''downloads''
                     (JArr (map (\<lambda>entry. JObj
                        [(''filename'', JStr (suggestedFilename entry)),
                         (''outputFile'', JStr (outputFile entry)),
                         (''finished'', JBool (finished entry))]) (downloads s)))
                 else snapshotData1)
          in Inr (JObj snapshotData2))"

text \<open>\<^verbatim>\<open>renderTabsJson(tabs, force)\<close>; \<open>JNull\<close> is its \<^verbatim>\<open>null\<close>.\<close>

definition renderTabsJson :: "tab list \<Rightarrow> bool \<Rightarrow> jsval" where
  \<open>renderTabsJson ts force =
     (if length ts = 1 \<and> \<not> force then JNull
      else if ts = [] then
        JObj [(''message'', JStr (js
                 ''No open tabs. Use the "browser_navigate" tool to navigate to a page first.'')),
              (''tabs'', JArr [])]
      else
        JObj [(''tabs'', JArr (map (\<lambda>(index, t). JObj
                 [(''index'', JNum (int index)),
                  (''title'', JStr (lastTitle t)),
                  (''url'', JStr (pageUrl t)),
                  (''isCurrent'', JBool (isCurrentTab t))]) (enumerate 0 ts)))])\<close>

text \<open>The value of \<^verbatim>\<open>this._isError\<close>.\<close>

definition isErrorValue :: "Response \<Rightarrow> jsval" where
  "isErrorValue this = (case f_isError this of None \<Rightarrow> JUndefined | Some b \<Rightarrow> JBool b)"

text \<open>
  \<^verbatim>\<open>serialize()\<close>. \<open>base64\<close> is \<^verbatim>\<open>Buffer.toString('base64')\<close> of the
  platform. The method reads the accumulator and assigns to none of its fields; the
  result is what it returns or throws, with the accumulator as it leaves it.
\<close>

definition serialize ::
  "(8 word list \<Rightarrow> jsstring) \<Rightarrow> browserContext \<Rightarrow> Response \<Rightarrow> (error + jsval) \<times> Response" where
  "serialize base64 ctx this =
     (let jsonResponse =
            [(''toolName'', JStr (toolName this)),
             (''toolArgs'', toolArgs this),
             (''isError'', isErrorValue this),
             (''result'', if length (f_result this) \<noteq> 0 then JArr (map JStr (f_result this)) else JNull),
             (''code'', if length (f_code this) \<noteq> 0 then JArr (map JStr (f_code this)) else JNull),
             (''tabs'', JNull),
             (''pageState'', JNull),
             (''modalStates'', JNull),
             (''images'', JArr [])];
          jsonResponse1 =
            (if f_includeSnapshot this \<or> f_includeTabs this then
               let tabsData = renderTabsJson (tabs ctx) (f_includeTabs this)
               in if tabsData \<noteq> JNull then setProp jsonResponse ''tabs'' tabsData
                  else jsonResponse
             else jsonResponse);
          jsonResponse2 =
            (case f_tabSnapshot this of
               None \<Rightarrow> Inr jsonResponse1
             | Some s \<Rightarrow>
                 if length (modalStates s) \<noteq> 0 then
                   Inr (setProp jsonResponse1 ''modalStates'' (JArr (modalStates s)))
                 else
                   (case renderTabSnapshotJson s of
                      Inl e \<Rightarrow> Inl e
                    | Inr pageState \<Rightarrow> Inr (setProp jsonResponse1 ''pageState'' pageState)))
      in case jsonResponse2 of
           Inl e \<Rightarrow> (Inl e, this)
         | Inr jsonResponse3 \<Rightarrow>
             let jsonResponse4 =
                   (if imageResponses ctx \<noteq> js ''omit'' then
                      setProp jsonResponse3 ''images''
                        (JArr (map (\<lambda>img. JObj
                           [(''type'', JStr (js ''image'')),
                            (''data'', JStr (base64 (data img))),
                            (''mimeType'', JStr (contentType img))]) (f_images this)))
                    else jsonResponse3)
             in (Inr (JObj [(''content'', JObj jsonResponse4), (''isError'', isErrorValue this)]),
                 this))"

text \<open>The payload of a serialization that returned, and its fields.\<close>

definition payloadField :: "(error + jsval) \<times> Response \<Rightarrow> string \<Rightarrow> jsval option" where
  "payloadField out key =
     (case fst out of
        Inr (JObj wrapper) \<Rightarrow>
          (case getProp wrapper ''content'' of
             JObj jsonResponse \<Rightarrow> Some (getProp jsonResponse key)
           | _ \<Rightarrow> None)
      | _ \<Rightarrow> None)"

definition wrapperField :: "(error + jsval) \<times> Response \<Rightarrow> string \<Rightarrow> jsval option" where
  "wrapperField out key =
     (case fst out of
        Inr (JObj wrapper) \<Rightarrow> Some (getProp wrapper key)
      | _ \<Rightarrow> None)"

section \<open>Example inputs\<close>

text \<open>The second test input of \<^verbatim>\<open>src/test_filter.js\<close>.\<close>

definition simpleTest :: jsstring where
  \<open>simpleTest = join
     [js ''- generic [ref=e1]: '',
      js ''  - generic [ref=e2]: '',
      js ''    - generic [ref=e3]: '',
      js ''- button "Click me" [ref=e4]'']\<close>

text \<open>
  A bare node with one child: the child is a generic node with a pointer attribute and
  text, as the browser's snapshots print a clickable element; and the same child
  without the attribute.
\<close>

definition bareParent :: jsstring where
  "bareParent = js ''- generic [ref=e1]:''"

definition textChild :: jsstring where
  "textChild = js ''  - generic [ref=e2] [cursor=pointer]: Click here''"

definition plainTextChild :: jsstring where
  "plainTextChild = js ''  - generic [ref=e2]: Click here''"

text \<open>
  A session with one open tab and a session with none; a snapshot taken while a dialog
  is open; accumulators of a tool named \<^verbatim>\<open>browser_click\<close>.
\<close>

definition homeTab :: tab where
  "homeTab = \<lparr> lastTitle = js ''Home'', pageUrl = js ''https://example.com/'',
     isCurrentTab = True \<rparr>"

definition singleTabContext :: browserContext where
  "singleTabContext = \<lparr> tabs = [homeTab], currentTab = Some homeTab,
     imageResponses = js ''allow'' \<rparr>"

definition noTabContext :: browserContext where
  "noTabContext = \<lparr> tabs = [], currentTab = None, imageResponses = js ''omit'' \<rparr>"

definition dialogSnapshot :: tabSnapshot where
  "dialogSnapshot = \<lparr> url = js ''https://example.com/'', title = js ''Home'',
     ariaSnapshot = simpleTest, consoleMessages = [js ''ready''], downloads = [],
     modalStates = [JStr (js ''alert dialog: Leave page?'')] \<rparr>"

definition freshResponse :: Response where
  "freshResponse = newResponse (js ''browser_click'') JNull"

definition snapshotRequested :: Response where
  "snapshotRequested = setIncludeSnapshot freshResponse"

definition tabsRequested :: Response where
  "tabsRequested = setIncludeTabs freshResponse"

definition dialogResponse :: Response where
  "dialogResponse =
     snd (snd (finish (\<lambda>t. Inr dialogSnapshot) Inr singleTabContext snapshotRequested))"

definition twoLineResponse :: Response where
  "twoLineResponse = addResult (js ''Done'') (addResult (js ''Clicked'') freshResponse)"

section \<open>Properties of the compactor\<close>

subsection \<open>Splitting and joining\<close>

declare hasUsefulContent.simps [simp del] hasUsefulContent_loop.simps [simp del] filterLoop.simps [simp del]

lemma split_not_Nil: "split s \<noteq> []"
  by (induction s) (auto split: list.splits)

lemma split_no_newline: "l \<in> set (split s) \<Longrightarrow> newline \<notin> set l"
  by (induction s arbitrary: l) (auto split: list.splits if_splits)

lemma split_append_newline:
  "newline \<notin> set l \<Longrightarrow> split (l @ newline # s) = l # split s"
  by (induction l) (auto split: list.splits)

lemma split_line: "newline \<notin> set l \<Longrightarrow> split l = [l]"
  by (induction l) (auto split: list.splits)

lemma split_join:
  "ls \<noteq> [] \<Longrightarrow> (\<forall>l\<in>set ls. newline \<notin> set l) \<Longrightarrow> split (join ls) = ls"
  by (induction ls rule: join.induct) (auto simp: split_line split_append_newline)

subsection \<open>The indexed loops and the loops on suffixes agree\<close>

lemma genericPrefix_not_Nil: "genericPrefix \<noteq> []"
  by (simp add: genericPrefix_def js_def)

lemma startsWith_prefix_not_Nil: "startsWith t genericPrefix \<Longrightarrow> t \<noteq> []"
  using genericPrefix_not_Nil by (auto simp: startsWith_def)

lemma scanning_not_blank: "scansDescendants line \<Longrightarrow> \<not> isBlank line"
  by (auto simp: scansDescendants_def isBlank_def dest: startsWith_prefix_not_Nil)

lemma hasUseful_suffix:
  "(lineIndex < length lines \<longrightarrow>
      hasUsefulContent lines lineIndex = Inr (usefulSuffix (drop lineIndex lines)))"
  "(i \<le> length lines \<longrightarrow>
      hasUsefulContent_loop lines currentIndent i = Inr (scanSuffix currentIndent (drop i lines)))"
proof (induction lines lineIndex and lines currentIndent i
        rule: hasUsefulContent_hasUsefulContent_loop.induct)
  case (1 lines lineIndex)
  show ?case
  proof
    assume lt: "lineIndex < length lines"
    then have d: "drop lineIndex lines = lines ! lineIndex # drop (Suc lineIndex) lines"
      by (simp add: Cons_nth_drop_Suc)
    show "hasUsefulContent lines lineIndex = Inr (usefulSuffix (drop lineIndex lines))"
    proof (cases "scansDescendants (lines ! lineIndex)")
      case True
      then have "hasUsefulContent lines lineIndex =
          hasUsefulContent_loop lines (indentOf (lines ! lineIndex)) (lineIndex + 1)"
        using lt by (subst hasUsefulContent.simps) (simp add: scansDescendants_def Let_def)
      also have "\<dots> = Inr (scanSuffix (indentOf (lines ! lineIndex)) (drop (lineIndex + 1) lines))"
        using "1.IH"[OF _ refl refl] True lt by (simp add: scansDescendants_def)
      finally show ?thesis using True d by simp
    next
      case False
      then have "hasUsefulContent lines lineIndex = Inr (\<not> isBlank (lines ! lineIndex))"
        using lt
        by (subst hasUsefulContent.simps)
           (auto simp: scansDescendants_def isBlank_def Let_def dest: startsWith_prefix_not_Nil)
      then show ?thesis using False d by simp
    qed
  qed
next
  case (2 lines currentIndent i)
  show ?case
  proof
    assume le: "i \<le> length lines"
    show "hasUsefulContent_loop lines currentIndent i = Inr (scanSuffix currentIndent (drop i lines))"
    proof (cases "i < length lines")
      case False
      then show ?thesis using le by (subst hasUsefulContent_loop.simps) simp
    next
      case True
      then have d: "drop i lines = lines ! i # drop (Suc i) lines"
        by (simp add: Cons_nth_drop_Suc)
      show ?thesis
        using True "2.IH" d
        by (subst hasUsefulContent_loop.simps)
           (auto simp: Let_def isBlank_def split: sum.splits bool.splits)
    qed
  qed
qed

lemma filterLoop_suffix:
  "i \<le> length lines \<Longrightarrow> filterLoop lines i res = Inr (res @ keepLines (drop i lines))"
proof (induction lines i res rule: filterLoop.induct)
  case (1 lines i res)
  show ?case
  proof (cases "i < length lines")
    case False
    then show ?thesis using "1.prems" by (subst filterLoop.simps) simp
  next
    case True
    then have d: "drop i lines = lines ! i # drop (Suc i) lines"
      by (simp add: Cons_nth_drop_Suc)
    have u: "hasUsefulContent lines i = Inr (usefulSuffix (drop i lines))"
      using hasUseful_suffix(1) True by blast
    show ?thesis
      using True "1.IH" d u
      by (subst filterLoop.simps) (auto simp: isBlank_def)
  qed
qed

lemma compact_keepLines:
  "filterEmptyGenericElementsIntelligent T = Inr (join (keepLines (split T)))"
  by (simp add: filterEmptyGenericElementsIntelligent_def filterLoop_suffix)

subsection \<open>What the filter keeps\<close>

lemma keepLines_subseq: "subseq (keepLines ls) ls"
  by (induction ls) auto

lemma keepLines_blank: "filter isBlank (keepLines ls) = filter isBlank ls"
  by (induction ls) auto

lemma keepLines_set: "set (keepLines ls) \<subseteq> set ls"
  by (induction ls) auto

lemma useful_scan_keep:
  "(usefulSuffix ls \<longrightarrow> (case ls of [] \<Rightarrow> True | l # rest \<Rightarrow> usefulSuffix (l # keepLines rest)))"
  "(scanSuffix d ls \<longrightarrow> scanSuffix d (keepLines ls))"
proof (induction ls and d ls rule: usefulSuffix_scanSuffix.induct)
  case 1
  show ?case by simp
next
  case (2 line rest)
  then show ?case by auto
next
  case (3 d)
  show ?case by simp
next
  case (4 d nextLine rest)
  show ?case
  proof
    assume s: "scanSuffix d (nextLine # rest)"
    then have nb: "\<not> (indentOf nextLine \<le> d \<and> \<not> isBlank nextLine)"
      by (auto split: if_splits)
    show "scanSuffix d (keepLines (nextLine # rest))"
    proof (cases "d < indentOf nextLine \<and> usefulSuffix (nextLine # rest)")
      case True
      then have "usefulSuffix (nextLine # keepLines rest)"
        using "4.IH"(1) nb by auto
      then show ?thesis using True nb by auto
    next
      case False
      then have "scanSuffix d rest" using s nb by (auto split: if_splits)
      then have "scanSuffix d (keepLines rest)"
        using "4.IH"(2) nb False by auto
      then show ?thesis using nb by auto
    qed
  qed
qed

lemma usefulSuffix_keep:
  "usefulSuffix (l # rest) \<Longrightarrow> usefulSuffix (l # keepLines rest)"
  using useful_scan_keep(1)[of "l # rest"] by simp

lemma keepLines_idem: "keepLines (keepLines ls) = keepLines ls"
proof (induction ls)
  case Nil
  show ?case by simp
next
  case (Cons l rest)
  show ?case
  proof (cases "isBlank l \<or> usefulSuffix (l # rest)")
    case True
    then have "isBlank l \<or> usefulSuffix (l # keepLines rest)"
      using usefulSuffix_keep by blast
    then show ?thesis using True Cons.IH by simp
  next
    case False
    then show ?thesis using Cons.IH by simp
  qed
qed

lemma keepLines_single_blank: "keepLines [[]] = [[]]"
  by (simp add: isBlank_def str_trim_def trimStart_def trimEnd_def)

lemma compact_idem_lines:
  assumes "\<forall>l\<in>set ls. newline \<notin> set l"
  shows "join (keepLines (split (join (keepLines ls)))) = join (keepLines ls)"
proof (cases "keepLines ls = []")
  case True
  then show ?thesis by (simp add: keepLines_single_blank)
next
  case False
  have "\<forall>l\<in>set (keepLines ls). newline \<notin> set l"
    using assms keepLines_set by blast
  then have "split (join (keepLines ls)) = keepLines ls"
    using False by (simp add: split_join)
  then show ?thesis by (simp add: keepLines_idem)
qed

text \<open>
  Claim C1 does not hold of the code. In the text of the two lines \<open>bareParent\<close>
  and \<open>textChild\<close> the first line is a bare structural node, and the second is
  indented deeper, is not blank and has text after its colon, so by the specification
  it is immediately useful and a useful descendant of the first: both lines are to be
  retained. \<^verbatim>\<open>hasUsefulContent\<close> returns false for both, since the regular
  expression allows nothing between the reference and the colon, and the compactor
  returns the empty string. With the child without the attribute both lines are
  retained.
\<close>

theorem text_carrying_descendant_dropped:
  "bareStructuralNode bareParent \<and>
   immediatelyUseful textChild \<and>
   indentOf bareParent < indentOf textChild \<and>
   split (join [bareParent, textChild]) = [bareParent, textChild] \<and>
   hasUsefulContent [bareParent, textChild] 1 = Inr False \<and>
   hasUsefulContent [bareParent, textChild] 0 = Inr False \<and>
   filterEmptyGenericElementsIntelligent (join [bareParent, textChild]) = Inr [] \<and>
   immediatelyUseful plainTextChild \<and>
   filterEmptyGenericElementsIntelligent (join [bareParent, plainTextChild]) =
     Inr (join [bareParent, plainTextChild])"
  by code_simp

text \<open>
  Claim C6. The array the filter loop builds is a subsequence of the input's lines (the
  same lines, unchanged, in their order, some omitted) that holds every blank line of
  the input; the returned text is that array joined, its lines are that array when the
  array is not empty, and each of its lines that is not blank is a line of the input.
\<close>

theorem compaction_only_omits_lines:
  "\<exists>kept. filterLoop (split T) 0 [] = Inr kept \<and>
     filterEmptyGenericElementsIntelligent T = Inr (join kept) \<and>
     subseq kept (split T) \<and>
     filter isBlank kept = filter isBlank (split T) \<and>
     (kept \<noteq> [] \<longrightarrow> split (join kept) = kept) \<and>
     (\<forall>l\<in>set (split (join kept)). \<not> isBlank l \<longrightarrow> l \<in> set (split T))"
proof -
  let ?k = "keepLines (split T)"
  have nl: "\<forall>l\<in>set ?k. newline \<notin> set l"
    using keepLines_set split_no_newline by blast
  have sj: "?k \<noteq> [] \<longrightarrow> split (join ?k) = ?k"
    using nl by (simp add: split_join)
  have "\<forall>l\<in>set (split (join ?k)). \<not> isBlank l \<longrightarrow> l \<in> set (split T)"
  proof (cases "?k = []")
    case True
    then show ?thesis by (simp add: isBlank_def str_trim_def trimStart_def trimEnd_def)
  next
    case False
    then show ?thesis using sj keepLines_set by auto
  qed
  then show ?thesis
    using sj by (intro exI[of _ ?k]) (simp add: filterLoop_suffix compact_keepLines
        keepLines_subseq keepLines_blank)
qed

theorem compaction_only_omits_lines_witness:
  \<open>filterEmptyGenericElementsIntelligent simpleTest = Inr (js ''- button "Click me" [ref=e4]'') \<and>
   subseq [js ''- button "Click me" [ref=e4]''] (split simpleTest) \<and>
   js ''- button "Click me" [ref=e4]'' \<in> set (split simpleTest)\<close>
proof -
  have e: \<open>filterLoop (split simpleTest) 0 [] = Inr [js ''- button "Click me" [ref=e4]'']\<close>
    by code_simp
  have n: \<open>\<not> isBlank (js ''- button "Click me" [ref=e4]'')\<close>
    by code_simp
  from compaction_only_omits_lines[of simpleTest] e n show ?thesis by auto
qed

text \<open>
  Claim C2. The compactor is a function of its input string that always returns, and it
  is idempotent: compacting the text it returned gives that same text again.
\<close>

theorem compactor_idempotent:
  "\<exists>u. filterEmptyGenericElementsIntelligent T = Inr u \<and>
       filterEmptyGenericElementsIntelligent u = Inr u"
proof -
  have "\<forall>l\<in>set (split T). newline \<notin> set l"
    using split_no_newline by blast
  then show ?thesis
    by (simp add: compact_keepLines compact_idem_lines)
qed

theorem compactor_idempotent_witness:
  \<open>filterEmptyGenericElementsIntelligent simpleTest = Inr (js ''- button "Click me" [ref=e4]'') \<and>
   filterEmptyGenericElementsIntelligent (js ''- button "Click me" [ref=e4]'') =
     Inr (js ''- button "Click me" [ref=e4]'')\<close>
proof -
  have e: \<open>filterEmptyGenericElementsIntelligent simpleTest = Inr (js ''- button "Click me" [ref=e4]'')\<close>
    by code_simp
  from compactor_idempotent[of simpleTest] e show ?thesis by auto
qed

section \<open>Properties of the accumulator and the serializer\<close>

subsection \<open>The fields of the payload\<close>

lemma getProp_setProp:
  "getProp (setProp ps k v) k' = (if k' = k then v else getProp ps k')"
  by (induction ps) auto

lemma renderTabSnapshotJson_returns: "\<exists>ps. renderTabSnapshotJson s = Inr (JObj ps)"
  by (simp add: renderTabSnapshotJson_def compact_keepLines Let_def)

lemma renderTabsJson_null:
  "renderTabsJson ts force = JNull \<longleftrightarrow> length ts = 1 \<and> \<not> force"
  by (simp add: renderTabsJson_def)

lemma serialize_returns:
  "\<exists>c. serialize b ctx r =
     (Inr (JObj [(''content'', JObj c), (''isError'', isErrorValue r)]), r)"
proof (cases "f_tabSnapshot r")
  case None
  then show ?thesis by (simp add: serialize_def Let_def)
next
  case (Some s)
  obtain ps where "renderTabSnapshotJson s = Inr (JObj ps)"
    using renderTabSnapshotJson_returns by blast
  then show ?thesis using Some by (simp add: serialize_def Let_def)
qed

lemma serialize_unfold:
  "serialize b ctx r =
     (let j0 = [(''toolName'', JStr (toolName r)),
             (''toolArgs'', toolArgs r),
             (''isError'', isErrorValue r),
             (''result'', if f_result r \<noteq> [] then JArr (map JStr (f_result r)) else JNull),
             (''code'', if f_code r \<noteq> [] then JArr (map JStr (f_code r)) else JNull),
             (''tabs'', JNull),
             (''pageState'', JNull),
             (''modalStates'', JNull),
             (''images'', JArr [])];
          j1 = (if (f_includeSnapshot r \<or> f_includeTabs r) \<and>
                   renderTabsJson (tabs ctx) (f_includeTabs r) \<noteq> JNull
                then setProp j0 ''tabs'' (renderTabsJson (tabs ctx) (f_includeTabs r)) else j0);
          j3 = (case f_tabSnapshot r of
                  None \<Rightarrow> j1
                | Some s \<Rightarrow>
                    if modalStates s \<noteq> [] then setProp j1 ''modalStates'' (JArr (modalStates s))
                    else setProp j1 ''pageState''
                           (case renderTabSnapshotJson s of Inr v \<Rightarrow> v | Inl e \<Rightarrow> JUndefined));
          j4 = (if imageResponses ctx \<noteq> js ''omit'' then
                  setProp j3 ''images''
                    (JArr (map (\<lambda>img. JObj
                       [(''type'', JStr (js ''image'')),
                        (''data'', JStr (b (data img))),
                        (''mimeType'', JStr (contentType img))]) (f_images r)))
                else j3)
      in (Inr (JObj [(''content'', JObj j4), (''isError'', isErrorValue r)]), r))"
proof (cases "f_tabSnapshot r")
  case None
  then show ?thesis by (simp add: serialize_def Let_def)
next
  case (Some s)
  obtain ps where "renderTabSnapshotJson s = Inr (JObj ps)"
    using renderTabSnapshotJson_returns by blast
  then show ?thesis using Some by (simp add: serialize_def Let_def)
qed

lemma payload_tabs:
  "payloadField (serialize b ctx r) ''tabs'' =
     Some (if f_includeSnapshot r \<or> f_includeTabs r
           then renderTabsJson (tabs ctx) (f_includeTabs r) else JNull)"
  by (auto simp: serialize_unfold payloadField_def Let_def getProp_setProp split: option.splits)

lemma payload_pageState:
  "payloadField (serialize b ctx r) ''pageState'' =
     Some (case f_tabSnapshot r of
             None \<Rightarrow> JNull
           | Some s \<Rightarrow>
               if modalStates s \<noteq> [] then JNull
               else (case renderTabSnapshotJson s of Inr v \<Rightarrow> v | Inl e \<Rightarrow> JUndefined))"
  by (simp add: serialize_unfold payloadField_def Let_def getProp_setProp split: option.splits)

lemma payload_modalStates:
  "payloadField (serialize b ctx r) ''modalStates'' =
     Some (case f_tabSnapshot r of
             None \<Rightarrow> JNull
           | Some s \<Rightarrow> if modalStates s \<noteq> [] then JArr (modalStates s) else JNull)"
  by (simp add: serialize_unfold payloadField_def Let_def getProp_setProp split: option.splits)

lemma payload_result:
  "payloadField (serialize b ctx r) ''result'' =
     Some (if f_result r \<noteq> [] then JArr (map JStr (f_result r)) else JNull)"
  by (simp add: serialize_unfold payloadField_def Let_def getProp_setProp split: option.splits)

lemma payload_code:
  "payloadField (serialize b ctx r) ''code'' =
     Some (if f_code r \<noteq> [] then JArr (map JStr (f_code r)) else JNull)"
  by (simp add: serialize_unfold payloadField_def Let_def getProp_setProp split: option.splits)

lemma payload_isError:
  "payloadField (serialize b ctx r) ''isError'' = Some (isErrorValue r)"
  by (simp add: serialize_unfold payloadField_def Let_def getProp_setProp split: option.splits)

lemma wrapper_isError:
  "wrapperField (serialize b ctx r) ''isError'' = Some (isErrorValue r)"
  by (simp add: serialize_unfold wrapperField_def Let_def)

lemma payload_images:
  "payloadField (serialize b ctx r) ''images'' =
     Some (if imageResponses ctx \<noteq> js ''omit'' then
             JArr (map (\<lambda>img. JObj
                       [(''type'', JStr (js ''image'')),
                        (''data'', JStr (b (data img))),
                        (''mimeType'', JStr (contentType img))]) (f_images r))
           else JArr [])"
  by (simp add: serialize_unfold payloadField_def Let_def getProp_setProp split: option.splits)

lemma payload_toolName:
  "payloadField (serialize b ctx r) ''toolName'' = Some (JStr (toolName r))"
  by (simp add: serialize_unfold payloadField_def Let_def getProp_setProp split: option.splits)

lemma payload_toolArgs:
  "payloadField (serialize b ctx r) ''toolArgs'' = Some (toolArgs r)"
  by (simp add: serialize_unfold payloadField_def Let_def getProp_setProp split: option.splits)

lemma applyCall_error_sticky:
  "f_isError r = Some True \<Longrightarrow> f_isError (applyCall r c) = Some True"
  by (cases c) (simp_all add: addResult_def addError_def addCode_def addImage_def
      setIncludeSnapshot_def setIncludeTabs_def)

lemma applyCalls_error_sticky:
  "f_isError r = Some True \<Longrightarrow> f_isError (applyCalls r cs) = Some True"
  unfolding applyCalls_def
  by (induction cs arbitrary: r) (simp_all add: applyCall_error_sticky)

lemma applyCalls_append:
  "applyCalls r (xs @ ys) = applyCalls (applyCalls r xs) ys"
  by (simp add: applyCalls_def)

lemma applyCalls_Cons:
  "applyCalls r (c # cs) = applyCalls (applyCall r c) cs"
  by (simp add: applyCalls_def)

lemma applyCalls_after_error:
  "f_isError (applyCalls r0 (pre @ AddError e # post)) = Some True"
  by (simp add: applyCalls_append applyCalls_Cons applyCalls_error_sticky addError_def)

lemma finish_fields:
  assumes "finish c u ctx r = (x, ts, r')"
  shows "r' = r\<lparr>f_tabSnapshot := f_tabSnapshot r'\<rparr>"
  using assms
  by (auto simp: finish_def currentTabOrDie_def split: if_splits option.splits sum.splits prod.splits)

lemma finish_isError: "f_isError (snd (snd (finish c u ctx r))) = f_isError r"
proof -
  obtain x ts r' where f: "finish c u ctx r = (x, ts, r')"
    by (cases "finish c u ctx r") auto
  have "f_isError r' = f_isError (r\<lparr>f_tabSnapshot := f_tabSnapshot r'\<rparr>)"
    using finish_fields[OF f] by simp
  then show ?thesis using f by simp
qed

lemma applyCalls_no_snapshot:
  "f_tabSnapshot (applyCalls r cs) = f_tabSnapshot r"
  unfolding applyCalls_def
proof (induction cs arbitrary: r)
  case Nil
  show ?case by simp
next
  case (Cons c cs)
  have "f_tabSnapshot (applyCall r c) = f_tabSnapshot r"
    by (cases c) (simp_all add: addResult_def addError_def addCode_def addImage_def
      setIncludeSnapshot_def setIncludeTabs_def)
  then show ?case using Cons.IH[of "applyCall r c"] by simp
qed

subsection \<open>The claims\<close>

text \<open>
  Claim C3. When the captured snapshot has a modal state, the payload's modalStates
  field is the snapshot's modal states and its pageState field is null, whatever else
  the snapshot, the accumulator and the context hold.
\<close>

theorem modal_precedence:
  assumes "f_tabSnapshot r = Some s" and "modalStates s \<noteq> []"
  shows "payloadField (serialize b ctx r) ''modalStates'' = Some (JArr (modalStates s)) \<and>
         payloadField (serialize b ctx r) ''pageState'' = Some JNull"
  using assms by (simp add: payload_modalStates payload_pageState)

theorem modal_precedence_witness:
  "payloadField (serialize (\<lambda>d. []) singleTabContext dialogResponse) ''modalStates'' =
     Some (JArr [JStr (js ''alert dialog: Leave page?'')]) \<and>
   payloadField (serialize (\<lambda>d. []) singleTabContext dialogResponse) ''pageState'' = Some JNull"
proof -
  have h1: "f_tabSnapshot dialogResponse = Some dialogSnapshot"
    by (simp add: dialogResponse_def finish_def snapshotRequested_def setIncludeSnapshot_def
        singleTabContext_def currentTabOrDie_def)
  have h2: "modalStates dialogSnapshot \<noteq> []"
    by (simp add: dialogSnapshot_def)
  from modal_precedence[OF h1 h2, of "\<lambda>d. []" singleTabContext] show ?thesis
    by (simp add: dialogSnapshot_def)
qed

text \<open>
  Claim C4. \<^verbatim>\<open>addError\<close> appends its line to the result log and sets the flag;
  after it the flag reads true through every further run of calls, so at the end of
  every run of calls that holds an \<^verbatim>\<open>addError\<close>; the payload serialized then,
  also after \<^verbatim>\<open>finish\<close>, and its wrapper carry the flag true.
\<close>

theorem error_flag_monotone:
  "isError (addError e r) = Some True \<and>
   f_result (addError e r) = f_result r @ [e] \<and>
   isError (applyCalls (addError e r) cs) = Some True \<and>
   isError (applyCalls r0 (pre @ AddError e # post)) = Some True \<and>
   payloadField (serialize b ctx (applyCalls r0 (pre @ AddError e # post))) ''isError'' =
     Some (JBool True) \<and>
   wrapperField (serialize b ctx (applyCalls r0 (pre @ AddError e # post))) ''isError'' =
     Some (JBool True) \<and>
   payloadField
     (serialize b ctx (snd (snd (finish c u ctx' (applyCalls r0 (pre @ AddError e # post))))))
     ''isError'' = Some (JBool True)"
proof -
  have a: "f_isError (addError e r) = Some True" by (simp add: addError_def)
  have b: "f_isError (applyCalls r0 (pre @ AddError e # post)) = Some True"
    by (rule applyCalls_after_error)
  show ?thesis
    using a b applyCalls_error_sticky[OF a, of cs]
    by (simp add: isError_def addError_def payload_isError wrapper_isError isErrorValue_def
        finish_isError)
qed

theorem error_flag_monotone_witness:
  "isError (applyCalls freshResponse
      [AddResult (js ''Clicked''), AddError (js ''Timeout''), AddCode (js ''await page.click()''),
       AddResult (js ''Done'')]) = Some True \<and>
   payloadField (serialize (\<lambda>d. []) noTabContext (applyCalls freshResponse
      [AddResult (js ''Clicked''), AddError (js ''Timeout''), AddCode (js ''await page.click()''),
       AddResult (js ''Done'')])) ''isError'' = Some (JBool True)"
  using error_flag_monotone[of "js ''Timeout''" freshResponse "[]" freshResponse
      "[AddResult (js ''Clicked'')]" "[AddCode (js ''await page.click()''), AddResult (js ''Done'')]"
      "\<lambda>d. []" noTabContext "\<lambda>t. Inr dialogSnapshot" Inr noTabContext]
  by simp

text \<open>
  Claim C5. The payload's tabs field is non-null only if the accumulator requested a
  snapshot or a tabs listing; with exactly one open tab and no request for a tabs
  listing it is null, also when a snapshot was requested; with a request and no open
  tab it is the placeholder message with an empty tab array.
\<close>

theorem tabs_field_rules:
  \<open>(payloadField (serialize b ctx r) ''tabs'' \<noteq> Some JNull \<longrightarrow>
      f_includeSnapshot r \<or> f_includeTabs r) \<and>
   (length (tabs ctx) = 1 \<and> \<not> f_includeTabs r \<longrightarrow>
      payloadField (serialize b ctx r) ''tabs'' = Some JNull) \<and>
   ((f_includeSnapshot r \<or> f_includeTabs r) \<and> tabs ctx = [] \<longrightarrow>
      payloadField (serialize b ctx r) ''tabs'' =
        Some (JObj [(''message'', JStr (js
                 ''No open tabs. Use the "browser_navigate" tool to navigate to a page first.'')),
              (''tabs'', JArr [])]))\<close>
  by (simp add: payload_tabs renderTabsJson_def)

theorem tabs_field_rules_witness:
  \<open>payloadField (serialize (\<lambda>d. []) singleTabContext snapshotRequested) ''tabs'' = Some JNull \<and>
   payloadField (serialize (\<lambda>d. []) noTabContext tabsRequested) ''tabs'' =
     Some (JObj [(''message'', JStr (js
              ''No open tabs. Use the "browser_navigate" tool to navigate to a page first.'')),
           (''tabs'', JArr [])]) \<and>
   payloadField (serialize (\<lambda>d. []) noTabContext tabsRequested) ''tabs'' \<noteq> Some JNull \<and>
   f_includeTabs tabsRequested\<close>
proof -
  have a: "length (tabs singleTabContext) = 1 \<and> \<not> f_includeTabs snapshotRequested"
    by (simp add: singleTabContext_def snapshotRequested_def setIncludeSnapshot_def
        freshResponse_def newResponse_def)
  have b: "(f_includeSnapshot tabsRequested \<or> f_includeTabs tabsRequested) \<and>
      tabs noTabContext = []"
    by (simp add: noTabContext_def tabsRequested_def setIncludeTabs_def)
  have c: "f_includeTabs tabsRequested"
    by (simp add: tabsRequested_def setIncludeTabs_def)
  note t1 = tabs_field_rules[of "\<lambda>d. []" singleTabContext snapshotRequested]
  note t2 = tabs_field_rules[of "\<lambda>d. []" noTabContext tabsRequested]
  from t1 a have w1:
    "payloadField (serialize (\<lambda>d. []) singleTabContext snapshotRequested) ''tabs'' = Some JNull"
    by blast
  from t2 b have w2:
    \<open>payloadField (serialize (\<lambda>d. []) noTabContext tabsRequested) ''tabs'' =
     Some (JObj [(''message'', JStr (js
              ''No open tabs. Use the "browser_navigate" tool to navigate to a page first.'')),
           (''tabs'', JArr [])])\<close>
    by blast
  then have w3:
    "payloadField (serialize (\<lambda>d. []) noTabContext tabsRequested) ''tabs'' \<noteq> Some JNull"
    by simp
  from w1 w2 w3 c show ?thesis by blast
qed

text \<open>
  Claim C7, as amended. The payload's result field is null when the result log is
  empty, and otherwise the array of the log's lines, in order and not joined; the code
  field is the same over the code log.
\<close>

theorem result_and_code_fields:
  "payloadField (serialize b ctx r) ''result'' =
     Some (if f_result r = [] then JNull else JArr (map JStr (f_result r))) \<and>
   payloadField (serialize b ctx r) ''code'' =
     Some (if f_code r = [] then JNull else JArr (map JStr (f_code r)))"
  by (simp add: payload_result payload_code)

theorem result_and_code_fields_witness:
  "payloadField (serialize (\<lambda>d. []) noTabContext twoLineResponse) ''result'' =
     Some (JArr [JStr (js ''Clicked''), JStr (js ''Done'')]) \<and>
   payloadField (serialize (\<lambda>d. []) noTabContext twoLineResponse) ''code'' = Some JNull"
  using result_and_code_fields[of "\<lambda>d. []" noTabContext twoLineResponse]
  by (simp add: twoLineResponse_def addResult_def freshResponse_def newResponse_def)

text \<open>
  Claim C7, as stated, fails: with two lines in the result log the result field is the
  array of the two lines, not the string that joins them with a newline.
\<close>

theorem result_field_joined_counterexample:
  "f_result twoLineResponse \<noteq> [] \<and>
   result twoLineResponse = js ''Clicked'' @ newline # js ''Done'' \<and>
   payloadField (serialize (\<lambda>d. []) noTabContext twoLineResponse) ''result'' =
     Some (JArr [JStr (js ''Clicked''), JStr (js ''Done'')]) \<and>
   payloadField (serialize (\<lambda>d. []) noTabContext twoLineResponse) ''result'' \<noteq>
     Some (JStr (result twoLineResponse))"
  by (simp add: payload_result result_def twoLineResponse_def addResult_def freshResponse_def
      newResponse_def)

text \<open>
  Claim C8, as amended. With no captured snapshot, serialization returns a payload and
  its pageState and modalStates fields are null. Each other optional field is at its
  default exactly when the accumulator holds nothing for it: result and code are null
  exactly for an empty log, isError is undefined exactly when no error was recorded,
  tabs is null exactly when neither a snapshot nor a tabs listing was requested or
  there is one open tab and no request for a listing, and images is empty exactly when
  no image was attached or images are omitted. The snapshot is unset on every
  accumulator that has only received calls of its tool.
\<close>

theorem serialize_without_snapshot:
  assumes "f_tabSnapshot r = None"
  shows "(\<exists>w. fst (serialize b ctx r) = Inr (JObj w)) \<and>
         payloadField (serialize b ctx r) ''pageState'' = Some JNull \<and>
         payloadField (serialize b ctx r) ''modalStates'' = Some JNull \<and>
         (payloadField (serialize b ctx r) ''result'' = Some JNull) = (f_result r = []) \<and>
         (payloadField (serialize b ctx r) ''code'' = Some JNull) = (f_code r = []) \<and>
         (payloadField (serialize b ctx r) ''tabs'' = Some JNull) =
            ((\<not> f_includeSnapshot r \<and> \<not> f_includeTabs r) \<or>
             (length (tabs ctx) = 1 \<and> \<not> f_includeTabs r)) \<and>
         (payloadField (serialize b ctx r) ''isError'' = Some JUndefined) =
            (f_isError r = None) \<and>
         (payloadField (serialize b ctx r) ''images'' = Some (JArr [])) =
            (f_images r = [] \<or> imageResponses ctx = js ''omit'') \<and>
         f_tabSnapshot (applyCalls (newResponse name args) cs) = None"
proof -
  have "\<exists>w. fst (serialize b ctx r) = Inr (JObj w)"
    using serialize_returns[of b ctx r] by auto
  moreover have "f_tabSnapshot (applyCalls (newResponse name args) cs) = None"
    by (simp add: applyCalls_no_snapshot newResponse_def)
  moreover have "(payloadField (serialize b ctx r) ''tabs'' = Some JNull) =
            ((\<not> f_includeSnapshot r \<and> \<not> f_includeTabs r) \<or>
             (length (tabs ctx) = 1 \<and> \<not> f_includeTabs r))"
    by (auto simp: payload_tabs renderTabsJson_null)
  moreover have "(payloadField (serialize b ctx r) ''isError'' = Some JUndefined) =
            (f_isError r = None)"
    by (simp add: payload_isError isErrorValue_def split: option.splits)
  ultimately show ?thesis
    using assms
    by (simp add: payload_pageState payload_modalStates payload_result payload_code
        payload_images)
qed

theorem serialize_without_snapshot_witness:
  "(\<exists>w. fst (serialize (\<lambda>d. []) singleTabContext snapshotRequested) = Inr (JObj w)) \<and>
   payloadField (serialize (\<lambda>d. []) singleTabContext snapshotRequested) ''pageState'' = Some JNull \<and>
   payloadField (serialize (\<lambda>d. []) singleTabContext snapshotRequested) ''modalStates'' = Some JNull \<and>
   payloadField (serialize (\<lambda>d. []) singleTabContext snapshotRequested) ''result'' = Some JNull \<and>
   payloadField (serialize (\<lambda>d. []) singleTabContext snapshotRequested) ''code'' = Some JNull \<and>
   payloadField (serialize (\<lambda>d. []) singleTabContext snapshotRequested) ''tabs'' = Some JNull \<and>
   payloadField (serialize (\<lambda>d. []) singleTabContext snapshotRequested) ''images'' = Some (JArr []) \<and>
   payloadField (serialize (\<lambda>d. []) singleTabContext snapshotRequested) ''isError'' = Some JUndefined"
proof -
  have h: "f_tabSnapshot snapshotRequested = None"
    by (simp add: snapshotRequested_def setIncludeSnapshot_def freshResponse_def newResponse_def)
  have e: "f_result snapshotRequested = [] \<and> f_code snapshotRequested = [] \<and>
      f_images snapshotRequested = [] \<and> f_isError snapshotRequested = None \<and>
      length (tabs singleTabContext) = 1 \<and> \<not> f_includeTabs snapshotRequested"
    by (simp add: snapshotRequested_def setIncludeSnapshot_def freshResponse_def newResponse_def
        singleTabContext_def)
  from serialize_without_snapshot[OF h, of "\<lambda>d. []" singleTabContext] e show ?thesis
    by blast
qed

text \<open>
  Claim C8, as stated, fails: with the snapshot unset, a requested capture and no open
  tab give a tabs field that is not null, and two result lines give a result field
  that is not null.
\<close>

theorem defaults_without_snapshot_counterexample:
  "f_tabSnapshot snapshotRequested = None \<and>
   payloadField (serialize (\<lambda>d. []) noTabContext snapshotRequested) ''tabs'' \<noteq> Some JNull \<and>
   f_tabSnapshot twoLineResponse = None \<and>
   payloadField (serialize (\<lambda>d. []) noTabContext twoLineResponse) ''result'' \<noteq> Some JNull"
  by (simp add: payload_tabs payload_result renderTabsJson_def snapshotRequested_def
      setIncludeSnapshot_def twoLineResponse_def addResult_def freshResponse_def
      newResponse_def noTabContext_def)

text \<open>
  Claim C9. \<^verbatim>\<open>finish\<close>, whether it returns or throws, leaves the accumulator as
  it was but for the snapshot field; that field changes only when a snapshot was
  requested and the context has a current tab, it stays unset otherwise, and it is the
  captured snapshot when the capture returns one.
\<close>

theorem finish_frame:
  assumes "finish c u ctx r = (x, ts, r')"
  shows "toolName r' = toolName r \<and> toolArgs r' = toolArgs r \<and>
         f_result r' = f_result r \<and> f_code r' = f_code r \<and> f_images r' = f_images r \<and>
         f_isError r' = f_isError r \<and> f_includeSnapshot r' = f_includeSnapshot r \<and>
         f_includeTabs r' = f_includeTabs r \<and>
         r' = r\<lparr>f_tabSnapshot := f_tabSnapshot r'\<rparr> \<and>
         (f_tabSnapshot r' \<noteq> f_tabSnapshot r \<longrightarrow>
            f_includeSnapshot r \<and> currentTab ctx \<noteq> None) \<and>
         (\<not> (f_includeSnapshot r \<and> currentTab ctx \<noteq> None) \<and> f_tabSnapshot r = None \<longrightarrow>
            f_tabSnapshot r' = None) \<and>
         (\<forall>t s. f_includeSnapshot r \<and> currentTab ctx = Some t \<and> c t = Inr s \<longrightarrow>
            f_tabSnapshot r' = Some s)"
proof -
  have e: "r' = r\<lparr>f_tabSnapshot := f_tabSnapshot r'\<rparr>"
    using assms by (rule finish_fields)
  have f: "toolName r' = toolName r \<and> toolArgs r' = toolArgs r \<and>
         f_result r' = f_result r \<and> f_code r' = f_code r \<and> f_images r' = f_images r \<and>
         f_isError r' = f_isError r \<and> f_includeSnapshot r' = f_includeSnapshot r \<and>
         f_includeTabs r' = f_includeTabs r"
    by (subst e, simp)+
  have g: "(f_tabSnapshot r' \<noteq> f_tabSnapshot r \<longrightarrow>
            f_includeSnapshot r \<and> currentTab ctx \<noteq> None) \<and>
         (\<not> (f_includeSnapshot r \<and> currentTab ctx \<noteq> None) \<and> f_tabSnapshot r = None \<longrightarrow>
            f_tabSnapshot r' = None) \<and>
         (\<forall>t s. f_includeSnapshot r \<and> currentTab ctx = Some t \<and> c t = Inr s \<longrightarrow>
            f_tabSnapshot r' = Some s)"
    using assms
    by (auto simp: finish_def currentTabOrDie_def
        split: if_splits option.splits sum.splits prod.splits)
  from e f g show ?thesis by blast
qed

theorem finish_frame_witness:
  "f_result (snd (snd (finish (\<lambda>t. Inr dialogSnapshot) Inr singleTabContext
      (setIncludeSnapshot twoLineResponse)))) = [js ''Clicked'', js ''Done''] \<and>
   f_tabSnapshot (snd (snd (finish (\<lambda>t. Inr dialogSnapshot) Inr singleTabContext
      (setIncludeSnapshot twoLineResponse)))) = Some dialogSnapshot \<and>
   f_tabSnapshot (snd (snd (finish (\<lambda>t. Inr dialogSnapshot) Inr singleTabContext
      twoLineResponse))) = None"
proof -
  obtain x ts r' where f: "finish (\<lambda>t. Inr dialogSnapshot) Inr singleTabContext
      (setIncludeSnapshot twoLineResponse) = (x, ts, r')"
    by (cases "finish (\<lambda>t. Inr dialogSnapshot) Inr singleTabContext
      (setIncludeSnapshot twoLineResponse)") auto
  obtain y us q' where g: "finish (\<lambda>t. Inr dialogSnapshot) Inr singleTabContext
      twoLineResponse = (y, us, q')"
    by (cases "finish (\<lambda>t. Inr dialogSnapshot) Inr singleTabContext twoLineResponse") auto
  have a: "f_includeSnapshot (setIncludeSnapshot twoLineResponse) \<and>
      currentTab singleTabContext = Some homeTab \<and>
      (\<lambda>t. Inr dialogSnapshot) homeTab = (Inr dialogSnapshot :: error + tabSnapshot)"
    by (simp add: setIncludeSnapshot_def singleTabContext_def)
  have b: "\<not> (f_includeSnapshot twoLineResponse \<and> currentTab singleTabContext \<noteq> None) \<and>
      f_tabSnapshot twoLineResponse = None"
    by (simp add: twoLineResponse_def addResult_def freshResponse_def newResponse_def)
  have c: "f_result (setIncludeSnapshot twoLineResponse) = [js ''Clicked'', js ''Done'']"
    by (simp add: setIncludeSnapshot_def twoLineResponse_def addResult_def freshResponse_def
        newResponse_def)
  from finish_frame[OF f] a c have "f_result r' = [js ''Clicked'', js ''Done''] \<and>
      f_tabSnapshot r' = Some dialogSnapshot"
    by metis
  moreover from finish_frame[OF g] b have "f_tabSnapshot q' = None"
    by blast
  ultimately show ?thesis using f g by simp
qed

text \<open>
  Claim C10. \<^verbatim>\<open>serialize\<close> leaves the accumulator as it was; what it returns is
  the same for two contexts with the same open tabs and the same image-response
  configuration; it returns a wrapper whose isError field is the payload's isError
  field.
\<close>

theorem serialize_read_only_deterministic:
  "snd (serialize b ctx r) = r \<and>
   (tabs ctx' = tabs ctx \<and> imageResponses ctx' = imageResponses ctx \<longrightarrow>
      serialize b ctx' r = serialize b ctx r) \<and>
   (\<exists>w. fst (serialize b ctx r) = Inr (JObj w)) \<and>
   (\<exists>v. wrapperField (serialize b ctx r) ''isError'' = Some v \<and>
        payloadField (serialize b ctx r) ''isError'' = Some v)"
proof -
  have "snd (serialize b ctx r) = r"
    using serialize_returns[of b ctx r] by auto
  moreover have "tabs ctx' = tabs ctx \<and> imageResponses ctx' = imageResponses ctx \<longrightarrow>
      serialize b ctx' r = serialize b ctx r"
  proof
    assume "tabs ctx' = tabs ctx \<and> imageResponses ctx' = imageResponses ctx"
    then have t: "tabs ctx' = tabs ctx" and i: "imageResponses ctx' = imageResponses ctx"
      by simp_all
    show "serialize b ctx' r = serialize b ctx r"
      by (simp only: serialize_def t i)
  qed
  moreover have "\<exists>w. fst (serialize b ctx r) = Inr (JObj w)"
    using serialize_returns[of b ctx r] by auto
  ultimately show ?thesis
    by (simp add: payload_isError wrapper_isError)
qed

theorem serialize_read_only_deterministic_witness:
  "snd (serialize (\<lambda>d. []) singleTabContext dialogResponse) = dialogResponse \<and>
   serialize (\<lambda>d. []) (singleTabContext\<lparr>currentTab := None\<rparr>) dialogResponse =
     serialize (\<lambda>d. []) singleTabContext dialogResponse"
proof -
  have h: "tabs (singleTabContext\<lparr>currentTab := None\<rparr>) = tabs singleTabContext \<and>
      imageResponses (singleTabContext\<lparr>currentTab := None\<rparr>) = imageResponses singleTabContext"
    by simp
  from serialize_read_only_deterministic[of "\<lambda>d. []" singleTabContext dialogResponse
      "singleTabContext\<lparr>currentTab := None\<rparr>"] h
  show ?thesis by blast
qed

end
